theory Spec2Isabelle
  imports Main "HOL-Library.Word"
begin

unbundle bit_operations_syntax

section \<open>JavaScript strings\<close>

text \<open>
  A JavaScript string is a sequence of UTF-16 code units; the stream arrives as bytes
  (\<open>Uint8Array\<close>). String literals of the source are written \<open>lit ''...''\<close> when
  they are ASCII and as explicit code units otherwise.
\<close>

type_synonym jsstring = "16 word list"
type_synonym bytes = "8 word list"

definition lit :: "string \<Rightarrow> jsstring" where
  "lit s = map of_char s"

text \<open>
  \<open>String.prototype.trim\<close> and the regular expression class \<open>\s\<close> use the same set:
  ECMAScript WhiteSpace (TAB, VT, FF, ZWNBSP and the Unicode space separators) and
  LineTerminator (LF, CR, LS, PS).
\<close>

definition js_whitespace :: "16 word \<Rightarrow> bool" where
  "js_whitespace c \<longleftrightarrow>
     c = 0x09 \<or> c = 0x0A \<or> c = 0x0B \<or> c = 0x0C \<or> c = 0x0D \<or> c = 0x20 \<or> c = 0xA0 \<or>
     c = 0x1680 \<or> (0x2000 \<le> c \<and> c \<le> 0x200A) \<or> c = 0x2028 \<or> c = 0x2029 \<or>
     c = 0x202F \<or> c = 0x205F \<or> c = 0x3000 \<or> c = 0xFEFF"

definition trim :: "jsstring \<Rightarrow> jsstring" where
  "trim s = rev (dropWhile js_whitespace (rev (dropWhile js_whitespace s)))"

definition startsWith :: "jsstring \<Rightarrow> jsstring \<Rightarrow> bool" where
  "startsWith s p \<longleftrightarrow> take (length p) s = p"

text \<open>
  \<open>buffer.split("\n")\<close>: the pieces between line feeds. The result is never empty (the
  empty string splits into one empty piece), so \<open>lines.pop()\<close> always yields a string.
\<close>

fun split_nl :: "jsstring \<Rightarrow> jsstring list" where
  "split_nl [] = [[]]"
| "split_nl (c # cs) =
     (if c = 0x0A then [] # split_nl cs
      else (case split_nl cs of l # ls \<Rightarrow> (c # l) # ls | [] \<Rightarrow> [[c]]))"

text \<open>\<open>String(n)\<close> for a non-negative integer, as the template literal of the HTTP status uses it.\<close>

fun decimal :: "nat \<Rightarrow> jsstring" where
  "decimal n = (if n < 10 then [of_nat (48 + n)] else decimal (n div 10) @ [of_nat (48 + n mod 10)])"

declare decimal.simps [simp del]

section \<open>Decoded records\<close>

text \<open>
  What \<open>JSON.parse\<close> returns. A number is carried as its binary64 bit pattern; an object
  as its key/value pairs, a property read taking the first binding of the key.
  A property that is absent reads as \<open>undefined\<close>, modelled by \<open>None\<close>.
\<close>

datatype json =
    JNull
  | JBool bool
  | JNum "64 word"
  | JStr jsstring
  | JArr "json list"
  | JObj "(jsstring \<times> json) list"

type_synonym jsvalue = "json option"

datatype js_error = SyntaxError | TypeError

text \<open>
  \<open>data.event\<close>, \<open>data.type\<close>, \<open>data.payload\<close>: reading a property of \<open>null\<close> throws a
  TypeError; booleans, numbers, strings and arrays have no property of these three names.
\<close>

fun get_prop :: "json \<Rightarrow> jsstring \<Rightarrow> js_error + jsvalue" where
  "get_prop JNull k = Inl TypeError"
| "get_prop (JObj kvs) k = Inr (map_of kvs k)"
| "get_prop _ k = Inr None"

text \<open>ToBoolean: \<open>undefined\<close>, \<open>null\<close>, \<open>false\<close>, \<open>+0\<close>, \<open>-0\<close>, \<open>NaN\<close> and \<open>""\<close> are falsy.\<close>

definition num_falsy :: "64 word \<Rightarrow> bool" where
  "num_falsy w \<longleftrightarrow>
     w AND 0x7FFFFFFFFFFFFFFF = 0 \<or>
     (w AND 0x7FF0000000000000 = 0x7FF0000000000000 \<and> w AND 0x000FFFFFFFFFFFFF \<noteq> 0)"

fun truthy :: "jsvalue \<Rightarrow> bool" where
  "truthy None = False"
| "truthy (Some JNull) = False"
| "truthy (Some (JBool b)) = b"
| "truthy (Some (JNum w)) = (\<not> num_falsy w)"
| "truthy (Some (JStr s)) = (s \<noteq> [])"
| "truthy (Some (JArr _)) = True"
| "truthy (Some (JObj _)) = True"

text \<open>
  The two library functions the consumer calls on records, and the configured base URL.
  \<open>JSON_parse\<close> returns \<open>None\<close> where \<open>JSON.parse\<close> throws its SyntaxError. Every
  theorem below holds for an arbitrary platform.
\<close>

record platform =
  JSON_parse :: "jsstring \<Rightarrow> json option"
  JSON_stringify :: "json \<Rightarrow> jsstring"
  API_BASE_URL :: jsstring

section \<open>The UTF-8 text decoder\<close>

text \<open>
  \<open>new TextDecoder("utf-8")\<close> used with \<open>{ stream: true }\<close>: the UTF-8 decoder of the
  Encoding Standard, non-fatal (a malformed sequence yields U+FFFD), which keeps an
  incomplete sequence in its state between calls and drops one leading byte order mark.
\<close>

record utf8 =
  code_point :: "32 word"
  bytes_seen :: nat
  bytes_needed :: nat
  lower_boundary :: "8 word"
  upper_boundary :: "8 word"

definition utf8_init :: utf8 where
  "utf8_init = \<lparr>code_point = 0, bytes_seen = 0, bytes_needed = 0,
                 lower_boundary = 0x80, upper_boundary = 0xBF\<rparr>"

definition utf8_lead :: "8 word \<Rightarrow> utf8 \<times> 32 word list" where
  "utf8_lead b =
     (if b \<le> 0x7F then (utf8_init, [ucast b])
      else if 0xC2 \<le> b \<and> b \<le> 0xDF then
        (utf8_init\<lparr>bytes_needed := 1, code_point := ucast (b AND 0x1F)\<rparr>, [])
      else if 0xE0 \<le> b \<and> b \<le> 0xEF then
        (utf8_init\<lparr>lower_boundary := (if b = 0xE0 then 0xA0 else 0x80),
                    upper_boundary := (if b = 0xED then 0x9F else 0xBF),
                    bytes_needed := 2, code_point := ucast (b AND 0x0F)\<rparr>, [])
      else if 0xF0 \<le> b \<and> b \<le> 0xF4 then
        (utf8_init\<lparr>lower_boundary := (if b = 0xF0 then 0x90 else 0x80),
                    upper_boundary := (if b = 0xF4 then 0x8F else 0xBF),
                    bytes_needed := 3, code_point := ucast (b AND 0x07)\<rparr>, [])
      else (utf8_init, [0xFFFD]))"

definition utf8_handler :: "utf8 \<Rightarrow> 8 word \<Rightarrow> utf8 \<times> 32 word list" where
  "utf8_handler u b =
     (if bytes_needed u = 0 then utf8_lead b
      else if \<not> (lower_boundary u \<le> b \<and> b \<le> upper_boundary u) then
        (case utf8_lead b of (u', out) \<Rightarrow> (u', 0xFFFD # out))
      else
        (let cp = push_bit 6 (code_point u) OR ucast (b AND 0x3F);
             n = bytes_seen u + 1
         in if n \<noteq> bytes_needed u then
              (u\<lparr>lower_boundary := 0x80, upper_boundary := 0xBF,
                 code_point := cp, bytes_seen := n\<rparr>, [])
            else (utf8_init, [cp])))"

definition utf16 :: "32 word \<Rightarrow> jsstring" where
  "utf16 cp =
     (if cp < 0x10000 then [ucast cp]
      else [0xD800 + ucast (drop_bit 10 (cp - 0x10000)),
            0xDC00 + ucast ((cp - 0x10000) AND 0x3FF)])"

record decoder_state =
  utf8_state :: utf8
  bom_seen :: bool

definition decoder_init :: decoder_state where
  "decoder_init = \<lparr>utf8_state = utf8_init, bom_seen = False\<rparr>"

fun serialize :: "bool \<Rightarrow> 32 word list \<Rightarrow> bool \<times> jsstring" where
  "serialize seen [] = (seen, [])"
| "serialize seen (cp # cps) =
     (if \<not> seen \<and> cp = 0xFEFF then serialize True cps
      else (case serialize True cps of (seen', s) \<Rightarrow> (seen', utf16 cp @ s)))"

definition decode_byte :: "decoder_state \<Rightarrow> 8 word \<Rightarrow> decoder_state \<times> jsstring" where
  "decode_byte d b =
     (case utf8_handler (utf8_state d) b of (u, cps) \<Rightarrow>
        (case serialize (bom_seen d) cps of (seen, s) \<Rightarrow>
           (\<lparr>utf8_state = u, bom_seen = seen\<rparr>, s)))"

text \<open>\<open>decoder.decode(value, { stream: true })\<close>: the bytes of the range, one after the other.\<close>

fun decode :: "decoder_state \<Rightarrow> bytes \<Rightarrow> decoder_state \<times> jsstring" where
  "decode d [] = (d, [])"
| "decode d (b # bs) =
     (case decode_byte d b of (d1, s1) \<Rightarrow>
        (case decode d1 bs of (d2, s2) \<Rightarrow> (d2, s1 @ s2)))"

section \<open>The stream consumer (ChatWindow)\<close>

text \<open>
  The consumer's control state: the asynchronous function \<open>fetchStream\<close> is suspended at
  \<open>await fetch(...)\<close>, suspended at \<open>await reader.read()\<close>, or has returned.
\<close>

datatype location = AwaitFetch | AwaitRead | Returned

datatype http_method = GET | POST

record request =
  url :: jsstring
  http_method :: http_method
  content_type :: jsstring
  body :: jsstring

text \<open>What the consumer does to its environment, in order.\<close>

datatype action =
    StreamStart
  | Fetch request
  | Read
  | StreamError jsstring
  | StreamComplete jsstring
  | Abort
  | ReaderCancel

text \<open>
  The React state of the component (\<open>answer\<close>, \<open>statusMessages\<close>, \<open>isStreaming\<close>), the
  variables of the effect's closure (\<open>isCancelled\<close>, \<open>decoder\<close>, \<open>reader\<close>, \<open>buffer\<close>,
  \<open>latestAnswer\<close>), where \<open>fetchStream\<close> stands, what \<open>console.error\<close> printed, and the
  actions taken so far.
\<close>

record consumer =
  answer :: jsstring
  statusMessages :: "jsstring list"
  isStreaming :: bool
  isCancelled :: bool
  decoder :: decoder_state
  reader :: bool
  buffer :: jsstring
  latestAnswer :: jsstring
  pc :: location
  console :: "(js_error \<times> jsstring) list"
  actions :: "action list"

definition cross_mark :: jsstring where
  "cross_mark = [0x274C, 0x20]"

text \<open>The \<open>const text = ...\<close> of \<open>pushStatus\<close>.\<close>

definition status_text :: "platform \<Rightarrow> jsvalue \<Rightarrow> jsstring" where
  "status_text p message =
     (case message of
        Some (JStr s) \<Rightarrow> s
      | Some v \<Rightarrow> JSON_stringify p v
      | None \<Rightarrow> [])"

definition pushStatus :: "platform \<Rightarrow> jsvalue \<Rightarrow> bool \<Rightarrow> consumer \<Rightarrow> consumer" where
  "pushStatus p message isError st =
     (let text = status_text p message
      in if text = [] then st
         else st\<lparr>statusMessages :=
                   statusMessages st @ [if isError then cross_mark @ text else text]\<rparr>)"

text \<open>\<open>data.event || data.type\<close>\<close>

definition eventType :: "json \<Rightarrow> js_error + jsvalue" where
  "eventType data =
     (case get_prop data (lit ''event'') of
        Inl e \<Rightarrow> Inl e
      | Inr ev \<Rightarrow> if truthy ev then Inr ev else get_prop data (lit ''type''))"

text \<open>
  The body of the \<open>try\<close> block of \<open>handleLine\<close> after \<open>JSON.parse\<close>: the \<open>switch\<close> on the
  event type. The only statement that can throw is the first property read.
\<close>

definition applyRecord :: "platform \<Rightarrow> json \<Rightarrow> consumer \<Rightarrow> js_error + consumer" where
  "applyRecord p data st =
     (case eventType data of
        Inl e \<Rightarrow> Inl e
      | Inr ev \<Rightarrow>
          if ev = Some (JStr (lit ''text'')) then
            (case get_prop data (lit ''payload'') of
               Inl e \<Rightarrow> Inl e
             | Inr pl \<Rightarrow>
                 (let payload = (case pl of Some (JStr s) \<Rightarrow> s | _ \<Rightarrow> [])
                  in Inr (st\<lparr>latestAnswer := latestAnswer st @ payload,
                             answer := answer st @ payload\<rparr>)))
          else if ev = Some (JStr (lit ''status'')) then
            (case get_prop data (lit ''payload'') of
               Inl e \<Rightarrow> Inl e
             | Inr pl \<Rightarrow> Inr (pushStatus p pl False st))
          else if ev = Some (JStr (lit ''error'')) then
            (case get_prop data (lit ''payload'') of
               Inl e \<Rightarrow> Inl e
             | Inr pl \<Rightarrow> Inr (pushStatus p pl True st))
          else Inr st)"

definition tryBody :: "platform \<Rightarrow> jsstring \<Rightarrow> consumer \<Rightarrow> js_error + consumer" where
  "tryBody p cleanLine st =
     (case JSON_parse p cleanLine of
        None \<Rightarrow> Inl SyntaxError
      | Some data \<Rightarrow> applyRecord p data st)"

text \<open>\<open>line.startsWith("data:") ? line.replace(/^data:\s*/, "") : line\<close>\<close>

definition cleanLine :: "jsstring \<Rightarrow> jsstring" where
  "cleanLine line =
     (if startsWith line (lit ''data:'') then dropWhile js_whitespace (drop 5 line) else line)"

definition handleLine :: "platform \<Rightarrow> jsstring \<Rightarrow> consumer \<Rightarrow> consumer" where
  "handleLine p rawLine st =
     (let line = trim rawLine
      in if line = [] then st
         else (case tryBody p (cleanLine line) st of
                 Inr st' \<Rightarrow> st'
               | Inl err \<Rightarrow> st\<lparr>console := console st @ [(err, line)]\<rparr>))"

text \<open>\<open>for (const line of lines) handleLine(line)\<close>\<close>

definition handleLines :: "platform \<Rightarrow> jsstring list \<Rightarrow> consumer \<Rightarrow> consumer" where
  "handleLines p ls st = foldl (\<lambda>s l. handleLine p l s) st ls"

section \<open>fetchStream as a machine driven by the resolution of its awaits\<close>

record response =
  ok :: bool
  status :: nat
  statusText :: jsstring
  has_body :: bool

text \<open>A rejection value: an \<open>Error\<close> with its message, or anything else.\<close>

datatype rejection = ErrorObject jsstring | NotAnError

datatype event =
    FetchResolved response
  | FetchRejected rejection
  | ReadValue bytes
  | ReadDone
  | ReadRejected rejection
  | Cleanup

definition empty_stream_message :: jsstring where
  "empty_stream_message =
     [0xC11C, 0xBC84, 0xC5D0, 0xC11C, 0x20, 0xBE48, 0x20, 0xC2A4, 0xD2B8, 0xB9BC, 0xC774, 0x20,
      0xBC18, 0xD658, 0xB418, 0xC5C8, 0xC2B5, 0xB2C8, 0xB2E4, 0x2E]"

definition unknown_error_message :: jsstring where
  "unknown_error_message =
     [0xC54C, 0x20, 0xC218, 0x20, 0xC5C6, 0xB294, 0x20, 0xC624, 0xB958, 0xAC00, 0x20,
      0xBC1C, 0xC0DD, 0xD588, 0xC2B5, 0xB2C8, 0xB2E4, 0x2E]"

text \<open>The request of \<open>fetchStream\<close>: the object serialised into the body, and the request.\<close>

definition ask_payload :: "jsstring \<Rightarrow> json" where
  "ask_payload activeQuestion =
     JObj [(lit ''user_id'', JStr (lit ''linkcampus'')), (lit ''question'', JStr activeQuestion)]"

definition ask_request :: "platform \<Rightarrow> jsstring \<Rightarrow> request" where
  "ask_request p activeQuestion =
     \<lparr>url = API_BASE_URL p @ lit ''/api/ask'', http_method = POST,
      content_type = lit ''application/json'',
      body = JSON_stringify p (ask_payload activeQuestion)\<rparr>"

text \<open>The \<open>finally\<close> block, after which the function has returned.\<close>

definition finally_block :: "consumer \<Rightarrow> consumer" where
  "finally_block st =
     (if \<not> isCancelled st then
        st\<lparr>isStreaming := False,
           actions := actions st @ [StreamComplete (latestAnswer st)],
           pc := Returned\<rparr>
      else st\<lparr>pc := Returned\<rparr>)"

text \<open>The \<open>catch\<close> block.\<close>

definition catch_block :: "platform \<Rightarrow> rejection \<Rightarrow> consumer \<Rightarrow> consumer" where
  "catch_block p err st =
     (if isCancelled st then st
      else
        (let message = (case err of ErrorObject m \<Rightarrow> m | NotAnError \<Rightarrow> unknown_error_message);
             st1 = pushStatus p (Some (JStr message)) True st
         in st1\<lparr>actions := actions st1 @ [StreamError message]\<rparr>))"

text \<open>After the loop: the remaining buffer, then \<open>finally\<close>.\<close>

definition after_loop :: "platform \<Rightarrow> consumer \<Rightarrow> consumer" where
  "after_loop p st =
     finally_block (if trim (buffer st) \<noteq> [] then handleLine p (buffer st) st else st)"

text \<open>The head of \<open>while (!isCancelled)\<close>: ask for the next byte range, or leave the loop.\<close>

definition loop_head :: "platform \<Rightarrow> consumer \<Rightarrow> consumer" where
  "loop_head p st =
     (if \<not> isCancelled st then st\<lparr>actions := actions st @ [Read], pc := AwaitRead\<rparr>
      else after_loop p st)"

text \<open>The loop body for a byte range that arrived.\<close>

definition loop_body :: "platform \<Rightarrow> bytes \<Rightarrow> consumer \<Rightarrow> consumer" where
  "loop_body p v st =
     (case decode (decoder st) v of (d, s) \<Rightarrow>
        (let lines = split_nl (buffer st @ s)
         in handleLines p (butlast lines) (st\<lparr>decoder := d, buffer := last lines\<rparr>)))"

definition after_fetch :: "platform \<Rightarrow> response \<Rightarrow> consumer \<Rightarrow> consumer" where
  "after_fetch p r st =
     (if \<not> ok r then
        finally_block
          (pushStatus p (Some (JStr (lit ''HTTP '' @ decimal (status r) @ lit '': '' @ statusText r)))
             True st)
      else if \<not> has_body r then
        finally_block (pushStatus p (Some (JStr empty_stream_message)) True st)
      else loop_head p (st\<lparr>reader := True\<rparr>))"

text \<open>The function the effect returns.\<close>

definition cleanup :: "consumer \<Rightarrow> consumer" where
  "cleanup st =
     st\<lparr>isCancelled := True,
        actions := actions st @ [Abort] @ (if reader st then [ReaderCancel] else [])\<rparr>"

text \<open>
  One step: the promise \<open>fetchStream\<close> is waiting for settles, or the cleanup runs. An
  event that nothing waits for leaves the consumer as it is.
\<close>

fun step :: "platform \<Rightarrow> event \<Rightarrow> consumer \<Rightarrow> consumer" where
  "step p Cleanup st = cleanup st"
| "step p (FetchResolved r) st = (if pc st = AwaitFetch then after_fetch p r st else st)"
| "step p (FetchRejected e) st =
     (if pc st = AwaitFetch then finally_block (catch_block p e st) else st)"
| "step p (ReadValue v) st = (if pc st = AwaitRead then loop_head p (loop_body p v st) else st)"
| "step p ReadDone st = (if pc st = AwaitRead then after_loop p st else st)"
| "step p (ReadRejected e) st =
     (if pc st = AwaitRead then finally_block (catch_block p e st) else st)"

definition steps :: "platform \<Rightarrow> event list \<Rightarrow> consumer \<Rightarrow> consumer" where
  "steps p evs st = foldl (\<lambda>s e. step p e s) st evs"

text \<open>\<open>fetchStream\<close> up to its first \<open>await\<close>.\<close>

definition fetchStream :: "platform \<Rightarrow> jsstring \<Rightarrow> consumer \<Rightarrow> consumer" where
  "fetchStream p activeQuestion st =
     st\<lparr>answer := [], statusMessages := [], isStreaming := True,
        actions := actions st @ [StreamStart, Fetch (ask_request p activeQuestion)],
        pc := AwaitFetch\<rparr>"

text \<open>
  The effect on \<open>activeQuestion\<close>: nothing for \<open>null\<close> or the empty string; otherwise
  fresh closure variables and a call of \<open>fetchStream\<close>.
\<close>

definition effect :: "platform \<Rightarrow> jsstring option \<Rightarrow> consumer \<Rightarrow> consumer" where
  "effect p activeQuestion st =
     (case activeQuestion of
        None \<Rightarrow> st
      | Some q \<Rightarrow>
          if q = [] then st
          else fetchStream p q
                 (st\<lparr>isCancelled := False, decoder := decoder_init, reader := False,
                     buffer := [], latestAnswer := []\<rparr>))"

text \<open>The component before any question: the initial values of its \<open>useState\<close> calls.\<close>

definition mounted :: consumer where
  "mounted =
     \<lparr>answer = [], statusMessages = [], isStreaming = False, isCancelled = False,
      decoder = decoder_init, reader = False, buffer = [], latestAnswer = [],
      pc = Returned, console = [], actions = []\<rparr>"

text \<open>
  A stream that is not cancelled: the response arrives, then the byte ranges, then the
  end of the stream.
\<close>

definition run :: "platform \<Rightarrow> jsstring \<Rightarrow> response \<Rightarrow> bytes list \<Rightarrow> consumer" where
  "run p q r chunks =
     steps p (FetchResolved r # map ReadValue chunks @ [ReadDone]) (effect p (Some q) mounted)"

section \<open>ApiService.askQuestion\<close>

datatype search_mode = General | Law

record QueryRequest =
  question :: jsstring
  search_mode :: search_mode

definition query_payload :: "QueryRequest \<Rightarrow> json" where
  "query_payload req =
     JObj [(lit ''question'', JStr (question req)),
           (lit ''search_mode'',
              JStr (case search_mode req of General \<Rightarrow> lit ''general'' | Law \<Rightarrow> lit ''law''))]"

definition askQuestion :: "platform \<Rightarrow> QueryRequest \<Rightarrow> request" where
  "askQuestion p req =
     \<lparr>url = API_BASE_URL p @ lit ''/api/ask'', http_method = POST,
      content_type = lit ''application/json'',
      body = JSON_stringify p (query_payload req)\<rparr>"

section \<open>The application (App)\<close>

record message =
  role :: jsstring
  content :: jsstring

record app =
  messages :: "message list"
  activeQuestion :: "jsstring option"

definition handleSearch :: "jsstring \<Rightarrow> app \<Rightarrow> app" where
  "handleSearch query a =
     (if trim query = [] then a
      else a\<lparr>messages := messages a @ [\<lparr>role = lit ''user'', content = query\<rparr>],
             activeQuestion := Some query\<rparr>)"

definition handleStreamComplete :: "jsstring \<Rightarrow> app \<Rightarrow> app" where
  "handleStreamComplete ans a =
     (let a1 = (if trim ans \<noteq> [] then
                  a\<lparr>messages := messages a @ [\<lparr>role = lit ''assistant'', content = ans\<rparr>]\<rparr>
                else a)
      in a1\<lparr>activeQuestion := None\<rparr>)"


section \<open>The Chunk contract\<close>

text \<open>
  The Chunk of the specification, written from its words: a kind out of \<open>text\<close>,
  \<open>status\<close>, \<open>source\<close>, \<open>error\<close>, and a payload: a text fragment, a progress label, a
  citation record, a failure description. The answer the contract promises is the ordered
  concatenation of the \<open>text\<close> payloads.
\<close>

datatype chunk =
    TextChunk jsstring
  | StatusChunk jsstring
  | SourceChunk json
  | ErrorChunk jsstring

fun kind_name :: "chunk \<Rightarrow> jsstring" where
  "kind_name (TextChunk _) = lit ''text''"
| "kind_name (StatusChunk _) = lit ''status''"
| "kind_name (SourceChunk _) = lit ''source''"
| "kind_name (ErrorChunk _) = lit ''error''"

fun payload_of :: "chunk \<Rightarrow> json" where
  "payload_of (TextChunk s) = JStr s"
| "payload_of (StatusChunk s) = JStr s"
| "payload_of (SourceChunk j) = j"
| "payload_of (ErrorChunk s) = JStr s"

text \<open>A decoded record carries a chunk: its \<open>event\<close> and \<open>payload\<close> properties are the chunk's.\<close>

definition encodes :: "json \<Rightarrow> chunk \<Rightarrow> bool" where
  "encodes data c \<longleftrightarrow>
     get_prop data (lit ''event'') = Inr (Some (JStr (kind_name c))) \<and>
     get_prop data (lit ''payload'') = Inr (Some (payload_of c))"



section \<open>Reading the consumer's behaviour\<close>

text \<open>
  The record a line decodes to: none for a blank line and for a line \<open>JSON.parse\<close>
  rejects. The records of a text are those of its lines.
\<close>

definition decodeLine :: "platform \<Rightarrow> jsstring \<Rightarrow> json option" where
  "decodeLine p rawLine =
     (let line = trim rawLine
      in if line = [] then None else JSON_parse p (cleanLine line))"


text \<open>
  A line that fails to decode: it is not blank, and \<open>JSON.parse\<close> throws on it or returns
  \<open>null\<close>, whose property read throws.
\<close>

definition undecodable :: "platform \<Rightarrow> jsstring \<Rightarrow> bool" where
  "undecodable p rawLine \<longleftrightarrow>
     trim rawLine \<noteq> [] \<and>
     (JSON_parse p (cleanLine (trim rawLine)) = None \<or>
      JSON_parse p (cleanLine (trim rawLine)) = Some JNull)"

text \<open>The text the decoder has produced for a byte stream read from its start.\<close>

definition decoded_text :: "bytes \<Rightarrow> jsstring" where
  "decoded_text bs = snd (decode decoder_init bs)"

text \<open>The answers passed to the completion callback, the read requests and the requests sent.\<close>

fun completion_of :: "action \<Rightarrow> jsstring option" where
  "completion_of (StreamComplete a) = Some a"
| "completion_of _ = None"

definition completions :: "action list \<Rightarrow> jsstring list" where
  "completions as = List.map_filter completion_of as"

fun request_of :: "action \<Rightarrow> request option" where
  "request_of (Fetch rq) = Some rq"
| "request_of _ = None"

definition requests :: "action list \<Rightarrow> request list" where
  "requests as = List.map_filter request_of as"

text \<open>
  The body of an Ask request as the interface describes it: an object with a string
  \<open>question\<close>, no key besides \<open>question\<close>, \<open>user_id\<close> and \<open>search_mode\<close>, and a
  \<open>search_mode\<close>, when present, of \<open>"general"\<close> or \<open>"law"\<close>.
\<close>

fun ask_body_ok :: "json \<Rightarrow> bool" where
  "ask_body_ok (JObj kvs) =
     ((case map_of kvs (lit ''question'') of Some (JStr _) \<Rightarrow> True | _ \<Rightarrow> False) \<and>
      list_all (\<lambda>k. k = lit ''question'' \<or> k = lit ''user_id'' \<or> k = lit ''search_mode'')
        (map fst kvs) \<and>
      (case map_of kvs (lit ''search_mode'') of
         None \<Rightarrow> True
       | Some v \<Rightarrow> v = JStr (lit ''general'') \<or> v = JStr (lit ''law'')))"
| "ask_body_ok _ = False"

text \<open>
  What a consumer adds to another: lines only ever append to the answer, the label list
  and the console.
\<close>

definition emit :: "consumer \<Rightarrow> consumer \<Rightarrow> consumer" where
  "emit d st =
     st\<lparr>answer := answer st @ answer d,
        statusMessages := statusMessages st @ statusMessages d,
        latestAnswer := latestAnswer st @ latestAnswer d,
        console := console st @ console d\<rparr>"

text \<open>The completion callback has been called at most once, and only by a stream that has ended.\<close>

definition at_most_once :: "consumer \<Rightarrow> bool" where
  "at_most_once st \<longleftrightarrow>
     length (completions (actions st)) \<le> 1 \<and>
     (pc st = Returned \<or> completions (actions st) = [])"

section \<open>A platform for examples\<close>

text \<open>
  An instance of the platform that agrees with \<open>JSON.parse\<close> and \<open>JSON.stringify\<close> on the
  lines and values of the examples below, and treats every other line as malformed.
\<close>

definition record_of :: "jsstring \<Rightarrow> json \<Rightarrow> json" where
  "record_of kind payload = JObj [(lit ''event'', JStr kind), (lit ''payload'', payload)]"

definition example_parse :: "jsstring \<Rightarrow> json option" where
  \<open>example_parse s =
     (if s = lit ''{"event":"text","payload":"ab"}'' then
        Some (record_of (lit ''text'') (JStr (lit ''ab'')))
      else if s = lit ''{"event":"text","payload":"'' @ [0xE9] @ lit ''"}'' then
        Some (record_of (lit ''text'') (JStr [0xE9]))
      else if s = lit ''{"event":"text","payload":null}'' then
        Some (record_of (lit ''text'') JNull)
      else if s = lit ''{"event":"status","payload":"ok"}'' then
        Some (record_of (lit ''status'') (JStr (lit ''ok'')))
      else if s = lit ''{"event":"status","payload":""}'' then
        Some (record_of (lit ''status'') (JStr []))
      else if s = lit ''{"event":"error","payload":null}'' then
        Some (record_of (lit ''error'') JNull)
      else if s = lit ''{"event":"source","payload":{"title":"t"}}'' then
        Some (record_of (lit ''source'') (JObj [(lit ''title'', JStr (lit ''t''))]))
      else if s = lit ''{"event":"","type":"text","payload":"ab"}'' then
        Some (JObj [(lit ''event'', JStr []), (lit ''type'', JStr (lit ''text'')),
                    (lit ''payload'', JStr (lit ''ab''))])
      else if s = lit ''null'' then Some JNull
      else None)\<close>

definition example_stringify :: "json \<Rightarrow> jsstring" where
  \<open>example_stringify v =
     (if v = JNull then lit ''null''
      else if v = JBool True then lit ''true''
      else if v = JBool False then lit ''false''
      else if v = ask_payload (lit ''hi'') then lit ''{"user_id":"linkcampus","question":"hi"}''
      else [])\<close>

definition example_platform :: platform where
  "example_platform =
     \<lparr>JSON_parse = example_parse, JSON_stringify = example_stringify,
      API_BASE_URL = lit ''http://localhost:8000''\<rparr>"

definition ok_response :: response where
  "ok_response = \<lparr>ok = True, status = 200, statusText = lit ''OK'', has_body = True\<rparr>"

text \<open>UTF-8 bytes of an ASCII literal.\<close>

definition ascii :: "string \<Rightarrow> bytes" where
  "ascii s = map of_char s"

text \<open>A stream of four records in three byte ranges, cut inside a record and inside a character.\<close>

definition example_stream :: "bytes list" where
  \<open>example_stream =
     [ascii ''{"event":"text","payload":"ab"}'' @ [0x0A] @ ascii ''{"event":"status","pay'',
      ascii ''load":"ok"}'' @ [0x0A] @ ascii ''{"event":"source","payload":{"title":"t"}}'' @
        [0x0A] @ ascii ''{"event":"text","payload":"'' @ [0xC3],
      [0xA9] @ ascii ''"}'' @ [0x0A]]\<close>


text \<open>The same two records with and without a malformed line between them.\<close>

definition first_line :: jsstring where
  \<open>first_line = lit ''{"event":"text","payload":"ab"}'' @ [0x0A]\<close>

definition second_line :: jsstring where
  \<open>second_line = lit ''{"event":"text","payload":"'' @ [0xE9] @ lit ''"}'' @ [0x0A]\<close>

definition clean_stream :: "bytes list" where
  \<open>clean_stream =
     [ascii ''{"event":"text","payload":"ab"}'' @ [0x0A],
      ascii ''{"event":"text","payload":"'' @ [0xC3, 0xA9] @ ascii ''"}'' @ [0x0A]]\<close>

definition malformed_stream :: "bytes list" where
  \<open>malformed_stream =
     [ascii ''{"event":"text","payload":"ab"}'' @ [0x0A] @ ascii ''oo'',
      ascii ''ps'' @ [0x0A] @ ascii ''{"event":"text","payload":"'' @ [0xC3, 0xA9] @
        ascii ''"}'' @ [0x0A]]\<close>

text \<open>A stream whose last record is not terminated by a line feed.\<close>

definition unterminated :: bytes where
  \<open>unterminated =
     ascii ''{"event":"text","payload":"ab"}'' @ [0x0A] @ ascii ''{"event":"text","payload":"ab"}''\<close>

section \<open>Lines and decoding\<close>

lemma split_nl_nonempty: "split_nl s \<noteq> []"
  by (induction s) (auto split: list.splits)

lemma split_nl_append:
  "split_nl (a @ b) = butlast (split_nl a) @ split_nl (last (split_nl a) @ b)"
proof (induction a)
  case Nil
  show ?case by simp
next
  case (Cons c a)
  obtain l ls where a: "split_nl a = l # ls"
    using split_nl_nonempty [of a] by (cases "split_nl a") auto
  obtain m ms where ab: "split_nl (last (split_nl a) @ b) = m # ms"
    using split_nl_nonempty [of "last (split_nl a) @ b"]
    by (cases "split_nl (last (split_nl a) @ b)") auto
  show ?case
  proof (cases "c = 0x0A")
    case True
    then show ?thesis using Cons a by simp
  next
    case False
    show ?thesis
    proof (cases ls)
      case Nil
      then show ?thesis using Cons a ab False by simp
    next
      case (Cons k ks)
      then show ?thesis using Cons.IH a ab False by simp
    qed
  qed
qed

lemma butlast_split_nl_append:
  "butlast (split_nl (a @ b)) = butlast (split_nl a) @ butlast (split_nl (last (split_nl a) @ b))"
  by (subst split_nl_append) (simp add: butlast_append split_nl_nonempty)

lemma last_split_nl_append:
  "last (split_nl (a @ b)) = last (split_nl (last (split_nl a) @ b))"
  by (subst split_nl_append) (simp add: split_nl_nonempty)

lemma split_nl_no_nl: "0x0A \<notin> set s \<Longrightarrow> split_nl s = [s]"
  by (induction s) auto

lemma last_split_nl_no_nl: "0x0A \<notin> set (last (split_nl s))"
proof (induction s)
  case Nil
  show ?case by simp
next
  case (Cons c s)
  then show ?case
    using split_nl_nonempty [of s] by (cases "split_nl s") (auto split: if_splits)
qed

lemma split_nl_line: "0x0A \<notin> set l \<Longrightarrow> split_nl (l @ 0x0A # t) = l # split_nl t"
  by (induction l) auto

lemma split_nl_complete: "split_nl (s @ [0x0A]) = split_nl s @ [[]]"
proof (induction s)
  case Nil
  show ?case by simp
next
  case (Cons c s)
  then show ?case
    using split_nl_nonempty [of s] by (cases "split_nl s") auto
qed

lemma decode_append:
  "decode d (a @ b) =
     (case decode d a of (d1, s1) \<Rightarrow> (case decode d1 b of (d2, s2) \<Rightarrow> (d2, s1 @ s2)))"
  by (induction a arbitrary: d) (auto split: prod.splits)

lemma trim_empty_iff: "trim s = [] \<longleftrightarrow> (\<forall>c \<in> set s. js_whitespace c)"
proof
  assume "trim s = []"
  then have "\<forall>c \<in> set (dropWhile js_whitespace s). js_whitespace c"
    by (simp add: trim_def)
  then have "dropWhile js_whitespace s = []"
    using hd_dropWhile [of js_whitespace s] hd_in_set [of "dropWhile js_whitespace s"] by blast
  then show "\<forall>c \<in> set s. js_whitespace c"
    by simp
next
  assume "\<forall>c \<in> set s. js_whitespace c"
  then have "dropWhile js_whitespace s = []"
    by (simp only: dropWhile_eq_Nil_conv)
  then show "trim s = []"
    by (simp only: trim_def dropWhile.simps rev.simps)
qed

section \<open>Lines only append\<close>

lemma handleLine_delta:
  "handleLine p l st =
     st\<lparr>answer := answer st @ answer (handleLine p l mounted),
        statusMessages := statusMessages st @ statusMessages (handleLine p l mounted),
        latestAnswer := latestAnswer st @ latestAnswer (handleLine p l mounted),
        console := console st @ console (handleLine p l mounted)\<rparr>"
  by (auto simp: handleLine_def tryBody_def applyRecord_def pushStatus_def mounted_def Let_def
      split: sum.splits option.splits json.splits)

lemma handleLine_emit: "handleLine p l st = emit (handleLine p l mounted) st"
  unfolding emit_def by (rule handleLine_delta)

lemma emit_emit: "emit d (emit e st) = emit (emit d e) st"
  by (simp add: emit_def)

lemma emit_mounted: "emit mounted st = st"
  by (simp add: emit_def mounted_def)

lemma handleLines_emit: "handleLines p ls st = emit (handleLines p ls mounted) st"
proof (induction ls rule: rev_induct)
  case Nil
  show ?case by (simp add: handleLines_def emit_mounted)
next
  case (snoc l ls)
  have "handleLines p (ls @ [l]) st = handleLine p l (handleLines p ls st)"
    by (simp add: handleLines_def)
  also have "\<dots> = emit (handleLine p l mounted) (emit (handleLines p ls mounted) st)"
    using snoc handleLine_emit by metis
  also have "\<dots> = emit (emit (handleLine p l mounted) (handleLines p ls mounted)) st"
    by (rule emit_emit)
  also have "emit (handleLine p l mounted) (handleLines p ls mounted) =
      handleLines p (ls @ [l]) mounted"
    using handleLine_emit [of p l "handleLines p ls mounted"] by (simp add: handleLines_def)
  finally show ?case .
qed

lemma handleLines_append: "handleLines p (a @ b) st = handleLines p b (handleLines p a st)"
  by (simp add: handleLines_def)

lemma handleLines_Cons: "handleLines p (l # ls) st = handleLines p ls (handleLine p l st)"
  by (simp add: handleLines_def)

lemma handleLine_blank: "trim l = [] \<Longrightarrow> handleLine p l st = st"
  by (simp add: handleLine_def)

lemma emit_fields [simp]:
  "isCancelled (emit d st) = isCancelled st"
  "pc (emit d st) = pc st"
  "buffer (emit d st) = buffer st"
  "decoder (emit d st) = decoder st"
  "actions (emit d st) = actions st"
  "reader (emit d st) = reader st"
  "isStreaming (emit d st) = isStreaming st"
  by (simp_all add: emit_def)

lemma handleLine_fields [simp]:
  "isCancelled (handleLine p l st) = isCancelled st"
  "pc (handleLine p l st) = pc st"
  "buffer (handleLine p l st) = buffer st"
  "decoder (handleLine p l st) = decoder st"
  "actions (handleLine p l st) = actions st"
  "reader (handleLine p l st) = reader st"
  "isStreaming (handleLine p l st) = isStreaming st"
  by (subst handleLine_emit, simp)+

lemma pushStatus_fields [simp]:
  "isCancelled (pushStatus p m e st) = isCancelled st"
  "pc (pushStatus p m e st) = pc st"
  "actions (pushStatus p m e st) = actions st"
  "reader (pushStatus p m e st) = reader st"
  "latestAnswer (pushStatus p m e st) = latestAnswer st"
  "answer (pushStatus p m e st) = answer st"
  by (simp_all add: pushStatus_def Let_def)

section \<open>The read loop\<close>

lemma loop_body_emit:
  "loop_body p v st =
     emit (handleLines p (butlast (split_nl (buffer st @ snd (decode (decoder st) v)))) mounted)
       (st\<lparr>decoder := fst (decode (decoder st) v),
           buffer := last (split_nl (buffer st @ snd (decode (decoder st) v)))\<rparr>)"
proof (cases "decode (decoder st) v")
  case (Pair d s)
  then show ?thesis
    using handleLines_emit [of p "butlast (split_nl (buffer st @ s))"
        "st\<lparr>decoder := d, buffer := last (split_nl (buffer st @ s))\<rparr>"]
    by (simp add: loop_body_def Let_def)
qed

lemma steps_append: "steps p (a @ b) st = steps p b (steps p a st)"
  by (simp add: steps_def)

lemma steps_Cons: "steps p (e # evs) st = steps p evs (step p e st)"
  by (simp add: steps_def)

lemma steps_Nil: "steps p [] st = st"
  by (simp add: steps_def)

lemma steps_ReadValue:
  assumes "pc st = AwaitRead" and "\<not> isCancelled st" and "0x0A \<notin> set (buffer st)"
  shows "steps p (map ReadValue cs) st =
     emit (handleLines p (butlast (split_nl (buffer st @ snd (decode (decoder st) (concat cs))))) mounted)
       (st\<lparr>decoder := fst (decode (decoder st) (concat cs)),
           buffer := last (split_nl (buffer st @ snd (decode (decoder st) (concat cs)))),
           actions := actions st @ replicate (length cs) Read\<rparr>)"
  using assms
proof (induction cs arbitrary: st)
  case Nil
  then show ?case by (simp add: steps_def handleLines_def emit_mounted split_nl_no_nl)
next
  case (Cons c cs)
  define d1 where "d1 = fst (decode (decoder st) c)"
  define s1 where "s1 = snd (decode (decoder st) c)"
  define s2 where "s2 = snd (decode d1 (concat cs))"
  define d2 where "d2 = fst (decode d1 (concat cs))"
  define A where "A = handleLines p (butlast (split_nl (buffer st @ s1))) mounted"
  define st1 where "st1 = emit A (st\<lparr>decoder := d1, buffer := last (split_nl (buffer st @ s1)),
     actions := actions st @ [Read]\<rparr>)"
  have dec: "decode (decoder st) (c @ concat cs) = (d2, s1 @ s2)"
    by (simp add: decode_append d1_def s1_def s2_def d2_def split: prod.splits)
  have "step p (ReadValue c) st = loop_head p (loop_body p c st)"
    using Cons.prems by simp
  also have "\<dots> = st1"
    using Cons.prems
    by (simp add: loop_head_def loop_body_emit st1_def A_def d1_def s1_def emit_def)
  finally have one: "step p (ReadValue c) st = st1" .
  have pc1: "pc st1 = AwaitRead" and nc1: "\<not> isCancelled st1"
    and nl1: "0x0A \<notin> set (buffer st1)"
    using Cons.prems by (simp_all add: st1_def last_split_nl_no_nl)
  have "steps p (map ReadValue (c # cs)) st = steps p (map ReadValue cs) st1"
    using one by (simp add: steps_def)
  also have "\<dots> =
     emit (handleLines p (butlast (split_nl (buffer st1 @ snd (decode (decoder st1) (concat cs))))) mounted)
       (st1\<lparr>decoder := fst (decode (decoder st1) (concat cs)),
           buffer := last (split_nl (buffer st1 @ snd (decode (decoder st1) (concat cs)))),
           actions := actions st1 @ replicate (length cs) Read\<rparr>)"
    by (rule Cons.IH [OF pc1 nc1 nl1])
  also have "\<dots> = emit (handleLines p (butlast (split_nl (buffer st @ s1 @ s2))) mounted)
       (st\<lparr>decoder := d2, buffer := last (split_nl (buffer st @ s1 @ s2)),
           actions := actions st @ replicate (length (c # cs)) Read\<rparr>)"
  proof -
    have b1: "buffer st1 = last (split_nl (buffer st @ s1))" and dd: "decoder st1 = d1"
      by (simp_all add: st1_def)
    have bl: "butlast (split_nl (buffer st @ s1 @ s2)) =
        butlast (split_nl (buffer st @ s1)) @ butlast (split_nl (buffer st1 @ s2))"
      using butlast_split_nl_append [of "buffer st @ s1" s2] by (simp add: b1)
    have la: "last (split_nl (buffer st @ s1 @ s2)) = last (split_nl (buffer st1 @ s2))"
      using last_split_nl_append [of "buffer st @ s1" s2] by (simp add: b1)
    have hh: "handleLines p (butlast (split_nl (buffer st @ s1 @ s2))) mounted =
        emit (handleLines p (butlast (split_nl (buffer st1 @ s2))) mounted) A"
      unfolding bl handleLines_append A_def by (rule handleLines_emit)
    show ?thesis
      unfolding hh la dd s2_def [symmetric] d2_def [symmetric]
      by (simp add: st1_def emit_def)
  qed
  finally show ?case using dec by simp
qed

lemma after_loop_flush: "after_loop p st = finally_block (handleLine p (buffer st) st)"
  by (simp add: after_loop_def handleLine_blank)

lemma steps_Returned: "pc st = Returned \<Longrightarrow> Cleanup \<notin> set evs \<Longrightarrow> steps p evs st = st"
proof (induction evs)
  case Nil
  show ?case by (simp add: steps_def)
next
  case (Cons e evs)
  then have "step p e st = st" by (cases e) simp_all
  with Cons show ?case by (simp add: steps_Cons)
qed

lemma effect_start:
  "q \<noteq> [] \<Longrightarrow> effect p (Some q) mounted =
     mounted\<lparr>isStreaming := True, actions := [StreamStart, Fetch (ask_request p q)],
             pc := AwaitFetch\<rparr>"
  by (simp add: effect_def fetchStream_def mounted_def)

lemma run_ok:
  assumes "q \<noteq> []" and "ok r" and "has_body r"
  shows "run p q r chunks =
     finally_block
       (emit (handleLines p (split_nl (decoded_text (concat chunks))) mounted)
          (mounted\<lparr>isStreaming := True, reader := True, pc := AwaitRead,
                  decoder := fst (decode decoder_init (concat chunks)),
                  buffer := last (split_nl (decoded_text (concat chunks))),
                  actions := [StreamStart, Fetch (ask_request p q)] @
                             replicate (Suc (length chunks)) Read\<rparr>))"
proof -
  define T where "T = decoded_text (concat chunks)"
  define S where "S = mounted\<lparr>isStreaming := True, reader := True, pc := AwaitRead,
     actions := [StreamStart, Fetch (ask_request p q), Read]\<rparr>"
  have first: "step p (FetchResolved r) (effect p (Some q) mounted) = S"
    unfolding effect_start [OF assms(1)]
    using assms(2,3) by (simp add: after_fetch_def loop_head_def S_def mounted_def)
  have S: "pc S = AwaitRead" "\<not> isCancelled S" "0x0A \<notin> set (buffer S)"
    "buffer S = []" "decoder S = decoder_init"
    by (simp_all add: S_def mounted_def)
  define X where "X = S\<lparr>decoder := fst (decode decoder_init (concat chunks)),
     buffer := last (split_nl T), actions := actions S @ replicate (length chunks) Read\<rparr>"
  have mid: "steps p (map ReadValue chunks) S = emit (handleLines p (butlast (split_nl T)) mounted) X"
    using steps_ReadValue [OF S(1-3), of p chunks]
    by (simp add: S(4,5) X_def T_def decoded_text_def)
  have "run p q r chunks = step p ReadDone (steps p (map ReadValue chunks) S)"
    by (simp only: run_def steps_Cons steps_append first steps_Nil)
  also have "\<dots> = after_loop p (emit (handleLines p (butlast (split_nl T)) mounted) X)"
    by (simp add: mid X_def S)
  also have "\<dots> = finally_block
      (handleLine p (last (split_nl T)) (emit (handleLines p (butlast (split_nl T)) mounted) X))"
    by (simp add: after_loop_flush X_def)
  also have "handleLine p (last (split_nl T)) (emit (handleLines p (butlast (split_nl T)) mounted) X)
      = emit (handleLines p (butlast (split_nl T) @ [last (split_nl T)]) mounted) X"
    by (subst handleLine_emit, subst emit_emit, subst handleLine_emit [symmetric])
      (simp add: handleLines_def)
  also have "butlast (split_nl T) @ [last (split_nl T)] = split_nl T"
    by (simp add: split_nl_nonempty)
  finally show ?thesis
    by (simp add: X_def S_def T_def mounted_def)
qed

lemma completions_simps [simp]:
  "completions [] = []"
  "completions (StreamComplete a # as) = a # completions as"
  "completions (Read # as) = completions as"
  "completions (StreamStart # as) = completions as"
  "completions (Fetch rq # as) = completions as"
  "completions (StreamError m # as) = completions as"
  "completions (Abort # as) = completions as"
  "completions (ReaderCancel # as) = completions as"
  by (simp_all add: completions_def)

lemma completions_append [simp]: "completions (a @ b) = completions a @ completions b"
  by (simp add: completions_def map_filter_def)

lemma completions_replicate_Read [simp]: "completions (replicate n Read) = []"
  by (induction n) simp_all

lemma run_ok_result:
  fixes p chunks
  defines "H \<equiv> handleLines p (split_nl (decoded_text (concat chunks))) mounted"
  assumes "q \<noteq> []" and "ok r" and "has_body r"
  shows "answer (run p q r chunks) = answer H"
    and "latestAnswer (run p q r chunks) = latestAnswer H"
    and "statusMessages (run p q r chunks) = statusMessages H"
    and "console (run p q r chunks) = console H"
    and "completions (actions (run p q r chunks)) = [latestAnswer H]"
    and "pc (run p q r chunks) = Returned"
  unfolding run_ok [OF assms(2-4)] H_def
  by (simp_all add: finally_block_def emit_def mounted_def)


section \<open>Records and chunks\<close>

lemma lit_kinds [simp]:
  "lit ''text'' \<noteq> []" "lit ''status'' \<noteq> []" "lit ''error'' \<noteq> []" "lit ''source'' \<noteq> []"
  "lit ''text'' \<noteq> lit ''status''" "lit ''text'' \<noteq> lit ''error''"
  "lit ''status'' \<noteq> lit ''text''" "lit ''status'' \<noteq> lit ''error''"
  "lit ''error'' \<noteq> lit ''text''" "lit ''error'' \<noteq> lit ''status''"
  "lit ''source'' \<noteq> lit ''text''" "lit ''source'' \<noteq> lit ''status''"
  "lit ''source'' \<noteq> lit ''error''"
  by (simp_all add: lit_def)

lemma eventType_payload:
  "eventType data = Inr ev \<Longrightarrow> \<exists>pl. get_prop data (lit ''payload'') = Inr pl"
  by (cases data) (simp_all add: eventType_def)




lemma handleLine_decoded:
  assumes "decodeLine p l = Some data"
  shows "handleLine p l st =
     (case applyRecord p data st of
        Inr st' \<Rightarrow> st'
      | Inl err \<Rightarrow> st\<lparr>console := console st @ [(err, trim l)]\<rparr>)"
  using assms
  by (simp add: decodeLine_def handleLine_def tryBody_def Let_def split: if_splits)


section \<open>The reconstructed answer\<close>



section \<open>Fragmentation of the byte stream\<close>

lemma finally_block_pc [simp]: "pc (finally_block st) = Returned"
  by (simp add: finally_block_def)

lemma effect_start_pc: "q \<noteq> [] \<Longrightarrow> pc (effect p (Some q) mounted) = AwaitFetch"
  by (simp add: effect_start)

lemma run_without_stream:
  assumes "q = [] \<or> \<not> ok r \<or> \<not> has_body r"
  shows "run p q r chunks = step p (FetchResolved r) (effect p (Some q) mounted)"
proof -
  have "pc (step p (FetchResolved r) (effect p (Some q) mounted)) = Returned"
  proof (cases "q = []")
    case True
    then show ?thesis by (simp add: effect_def mounted_def)
  next
    case False
    with assms show ?thesis
      by (auto simp: effect_start_pc after_fetch_def)
  qed
  moreover have "Cleanup \<notin> set (map ReadValue chunks @ [ReadDone])" by auto
  ultimately show ?thesis
    unfolding run_def steps_Cons by (rule steps_Returned)
qed

text \<open>
  C2. Two sequences of byte ranges that cut the same byte stream, wherever the cuts fall
  (inside a line, inside a multi-byte character), leave the consumer with the same
  displayed answer, the same reported answer, the same status/error label list and the
  same logged lines. It holds for every byte stream, well-formed or not.
\<close>

theorem fragmentation_invariance:
  assumes "concat chunks1 = concat chunks2"
  shows "answer (run p q r chunks1) = answer (run p q r chunks2) \<and>
         latestAnswer (run p q r chunks1) = latestAnswer (run p q r chunks2) \<and>
         statusMessages (run p q r chunks1) = statusMessages (run p q r chunks2) \<and>
         console (run p q r chunks1) = console (run p q r chunks2) \<and>
         completions (actions (run p q r chunks1)) = completions (actions (run p q r chunks2))"
proof (cases "q \<noteq> [] \<and> ok r \<and> has_body r")
  case True
  then have "q \<noteq> []" and "ok r" and "has_body r" by simp_all
  then show ?thesis
    by (simp add: run_ok_result assms)
next
  case False
  then have "q = [] \<or> \<not> ok r \<or> \<not> has_body r" by blast
  then show ?thesis
    by (simp add: run_without_stream)
qed

theorem fragmentation_invariance_witness:
  "concat example_stream = concat [concat example_stream] \<and>
   answer (run example_platform (lit ''hi'') ok_response example_stream) =
     answer (run example_platform (lit ''hi'') ok_response [concat example_stream]) \<and>
   statusMessages (run example_platform (lit ''hi'') ok_response example_stream) =
     statusMessages (run example_platform (lit ''hi'') ok_response [concat example_stream]) \<and>
   completions (actions (run example_platform (lit ''hi'') ok_response example_stream)) =
     completions (actions (run example_platform (lit ''hi'') ok_response [concat example_stream]))"
proof -
  have h: "concat example_stream = concat [concat example_stream]" by simp
  show ?thesis
    using fragmentation_invariance [OF h, of example_platform "lit ''hi''" ok_response] h
    by simp
qed

section \<open>Malformed lines\<close>

lemma handleLine_undecodable:
  assumes "undecodable p l"
  shows "\<exists>e. handleLine p l st = st\<lparr>console := console st @ [(e, trim l)]\<rparr>"
  using assms
  by (auto simp: undecodable_def handleLine_def tryBody_def applyRecord_def eventType_def)

lemma emit_undecodable:
  assumes "undecodable p l"
  shows "answer (emit (handleLine p l mounted) st) = answer st"
    and "latestAnswer (emit (handleLine p l mounted) st) = latestAnswer st"
    and "statusMessages (emit (handleLine p l mounted) st) = statusMessages st"
  using handleLine_undecodable [OF assms, of mounted]
  by (auto simp: emit_def mounted_def)

lemma split_nl_at_boundary:
  assumes "s1 = [] \<or> last s1 = 0x0A"
  shows "split_nl (s1 @ t) = butlast (split_nl s1) @ split_nl t"
proof (cases "s1 = []")
  case True
  then show ?thesis by simp
next
  case False
  with assms obtain s where "s1 = s @ [0x0A]"
    by (metis append_butlast_last_id)
  then have "last (split_nl s1) = []"
    by (simp add: split_nl_complete)
  then show ?thesis
    using split_nl_append [of s1 t] by simp
qed

lemma handleLines_skip_undecodable:
  assumes "undecodable p bad"
  shows "answer (handleLines p (A @ bad # B) st) = answer (handleLines p (A @ B) st) \<and>
         latestAnswer (handleLines p (A @ bad # B) st) = latestAnswer (handleLines p (A @ B) st) \<and>
         statusMessages (handleLines p (A @ bad # B) st) =
           statusMessages (handleLines p (A @ B) st)"
proof -
  define X where "X = handleLines p A st"
  obtain e where e: "handleLine p bad X = X\<lparr>console := console X @ [(e, trim bad)]\<rparr>"
    using handleLine_undecodable [OF assms] by blast
  have "handleLines p (A @ bad # B) st = handleLines p B (handleLine p bad X)"
    by (simp add: handleLines_append handleLines_Cons X_def)
  also have "\<dots> = emit (handleLines p B mounted) (X\<lparr>console := console X @ [(e, trim bad)]\<rparr>)"
    by (subst handleLines_emit) (simp add: e)
  finally have l: "handleLines p (A @ bad # B) st =
      emit (handleLines p B mounted) (X\<lparr>console := console X @ [(e, trim bad)]\<rparr>)" .
  have "handleLines p (A @ B) st = handleLines p B X"
    by (simp add: handleLines_append X_def)
  also have "\<dots> = emit (handleLines p B mounted) X"
    by (rule handleLines_emit)
  finally show ?thesis
    by (simp add: l emit_def)
qed

text \<open>
  C3. A line that fails to decode (it is not blank, and \<open>JSON.parse\<close> throws on it or
  yields \<open>null\<close>) is logged and dropped: the line handler returns normally with the
  answer, the reported answer and the label list as they were, and one more line on the
  console. And a stream whose text is that of another stream with one such line inserted
  at a line boundary ends with the same answer, reported answer and label list.
\<close>

theorem malformed_line_tolerated:
  assumes "undecodable p bad"
  shows "(\<exists>e. handleLine p bad st = st\<lparr>console := console st @ [(e, trim bad)]\<rparr>) \<and>
    (q \<noteq> [] \<and> ok r \<and> has_body r \<and> 0x0A \<notin> set bad \<and> (s1 = [] \<or> last s1 = 0x0A) \<and>
     decoded_text (concat chunks1) = s1 @ bad @ [0x0A] @ s2 \<and>
     decoded_text (concat chunks2) = s1 @ s2 \<longrightarrow>
       answer (run p q r chunks1) = answer (run p q r chunks2) \<and>
       latestAnswer (run p q r chunks1) = latestAnswer (run p q r chunks2) \<and>
       statusMessages (run p q r chunks1) = statusMessages (run p q r chunks2) \<and>
       completions (actions (run p q r chunks1)) = completions (actions (run p q r chunks2)))"
proof (intro conjI impI)
  show "\<exists>e. handleLine p bad st = st\<lparr>console := console st @ [(e, trim bad)]\<rparr>"
    by (rule handleLine_undecodable [OF assms])
next
  assume h: "q \<noteq> [] \<and> ok r \<and> has_body r \<and> 0x0A \<notin> set bad \<and> (s1 = [] \<or> last s1 = 0x0A) \<and>
     decoded_text (concat chunks1) = s1 @ bad @ [0x0A] @ s2 \<and>
     decoded_text (concat chunks2) = s1 @ s2"
  then have q: "q \<noteq> []" "ok r" "has_body r" by simp_all
  have l1: "split_nl (decoded_text (concat chunks1)) =
      butlast (split_nl s1) @ bad # split_nl s2"
    using h split_nl_at_boundary [of s1 "bad @ [0x0A] @ s2"] split_nl_line [of bad s2]
    by simp
  have l2: "split_nl (decoded_text (concat chunks2)) = butlast (split_nl s1) @ split_nl s2"
    using h split_nl_at_boundary [of s1 s2] by simp
  have k: "answer (handleLines p (butlast (split_nl s1) @ bad # split_nl s2) mounted) =
        answer (handleLines p (butlast (split_nl s1) @ split_nl s2) mounted) \<and>
      latestAnswer (handleLines p (butlast (split_nl s1) @ bad # split_nl s2) mounted) =
        latestAnswer (handleLines p (butlast (split_nl s1) @ split_nl s2) mounted) \<and>
      statusMessages (handleLines p (butlast (split_nl s1) @ bad # split_nl s2) mounted) =
        statusMessages (handleLines p (butlast (split_nl s1) @ split_nl s2) mounted)"
    by (rule handleLines_skip_undecodable [OF assms])
  show "answer (run p q r chunks1) = answer (run p q r chunks2)"
    by (simp add: run_ok_result [OF q] l1 l2 k)
  show "latestAnswer (run p q r chunks1) = latestAnswer (run p q r chunks2)"
    by (simp add: run_ok_result [OF q] l1 l2 k)
  show "statusMessages (run p q r chunks1) = statusMessages (run p q r chunks2)"
    by (simp add: run_ok_result [OF q] l1 l2 k)
  show "completions (actions (run p q r chunks1)) = completions (actions (run p q r chunks2))"
    by (simp add: run_ok_result [OF q] l1 l2 k)
qed


theorem malformed_line_tolerated_witness:
  "undecodable example_platform (lit ''oops'') \<and>
   handleLine example_platform (lit ''oops'') mounted =
     mounted\<lparr>console := [(SyntaxError, lit ''oops'')]\<rparr> \<and>
   decoded_text (concat malformed_stream) = first_line @ lit ''oops'' @ [0x0A] @ second_line \<and>
   decoded_text (concat clean_stream) = first_line @ second_line \<and>
   answer (run example_platform (lit ''hi'') ok_response malformed_stream) =
     answer (run example_platform (lit ''hi'') ok_response clean_stream) \<and>
   statusMessages (run example_platform (lit ''hi'') ok_response malformed_stream) =
     statusMessages (run example_platform (lit ''hi'') ok_response clean_stream) \<and>
   completions (actions (run example_platform (lit ''hi'') ok_response malformed_stream)) =
     completions (actions (run example_platform (lit ''hi'') ok_response clean_stream))"
proof -
  have u: "undecodable example_platform (lit ''oops'')" by code_simp
  have hl: "handleLine example_platform (lit ''oops'') mounted =
      mounted\<lparr>console := [(SyntaxError, lit ''oops'')]\<rparr>"
    by code_simp
  have d1: "decoded_text (concat malformed_stream) =
      first_line @ lit ''oops'' @ [0x0A] @ second_line"
    by code_simp
  have d2: "decoded_text (concat clean_stream) = first_line @ second_line" by code_simp
  have q: "lit ''hi'' \<noteq> []" "ok ok_response" "has_body ok_response"
    by (simp_all add: lit_def ok_response_def)
  have n: "0x0A \<notin> set (lit ''oops'')" by (simp add: lit_def)
  have b: "first_line = [] \<or> last first_line = 0x0A" by (simp add: first_line_def)
  show ?thesis
    using malformed_line_tolerated [OF u, of mounted "lit ''hi''" ok_response first_line
        malformed_stream second_line clean_stream] u hl d1 d2 q n b
    by simp
qed

section \<open>Cancellation\<close>

lemma finally_block_cancelled:
  "isCancelled st \<Longrightarrow> finally_block st = st\<lparr>pc := Returned\<rparr>"
  by (simp add: finally_block_def)

lemma step_cancelled:
  assumes "isCancelled st"
  shows "isCancelled (step p e st) \<and>
         (\<exists>new. actions (step p e st) = actions st @ new \<and> set new \<subseteq> {Abort, ReaderCancel})"
proof (cases e)
  case (FetchResolved r)
  with assms show ?thesis
    by (simp add: after_fetch_def loop_head_def after_loop_def finally_block_cancelled)
next
  case (FetchRejected x)
  with assms show ?thesis by (simp add: catch_block_def finally_block_cancelled)
next
  case (ReadValue v)
  with assms show ?thesis
    by (simp add: loop_head_def loop_body_emit after_loop_def finally_block_cancelled)
next
  case ReadDone
  with assms show ?thesis by (simp add: after_loop_def finally_block_cancelled)
next
  case (ReadRejected x)
  with assms show ?thesis by (simp add: catch_block_def finally_block_cancelled)
next
  case Cleanup
  with assms show ?thesis by (auto simp: cleanup_def)
qed

lemma steps_cancelled:
  assumes "isCancelled st"
  shows "isCancelled (steps p evs st) \<and>
         (\<exists>new. actions (steps p evs st) = actions st @ new \<and> set new \<subseteq> {Abort, ReaderCancel})"
  using assms
proof (induction evs arbitrary: st)
  case Nil
  then show ?case by (simp add: steps_Nil)
next
  case (Cons e evs)
  obtain n1 where c1: "isCancelled (step p e st)"
    and a1: "actions (step p e st) = actions st @ n1" and s1: "set n1 \<subseteq> {Abort, ReaderCancel}"
    using step_cancelled [OF Cons.prems] by blast
  obtain n2 where c2: "isCancelled (steps p evs (step p e st))"
    and a2: "actions (steps p evs (step p e st)) = actions (step p e st) @ n2"
    and s2: "set n2 \<subseteq> {Abort, ReaderCancel}"
    using Cons.IH [OF c1] by blast
  have "actions (steps p (e # evs) st) = actions st @ (n1 @ n2)"
    by (simp add: steps_Cons a1 a2)
  moreover have "set (n1 @ n2) \<subseteq> {Abort, ReaderCancel}" using s1 s2 by simp
  ultimately show ?case using c2 by (metis steps_Cons)
qed

lemma finally_block_once:
  "completions (actions st) = [] \<Longrightarrow> at_most_once (finally_block st)"
  by (simp add: at_most_once_def finally_block_def)

lemma after_loop_once: "completions (actions st) = [] \<Longrightarrow> at_most_once (after_loop p st)"
  by (simp add: after_loop_def finally_block_once)

lemma loop_head_once:
  assumes "completions (actions st) = []"
  shows "at_most_once (loop_head p st)"
proof (cases "isCancelled st")
  case True
  then show ?thesis using assms by (simp add: loop_head_def after_loop_once)
next
  case False
  then show ?thesis using assms by (simp add: loop_head_def at_most_once_def)
qed

lemma catch_block_completions [simp]:
  "completions (actions (catch_block p x st)) = completions (actions st)"
  by (simp add: catch_block_def Let_def)

lemma after_fetch_once:
  "completions (actions st) = [] \<Longrightarrow> at_most_once (after_fetch p r st)"
  by (simp add: after_fetch_def finally_block_once loop_head_once)

lemma step_at_most_once:
  assumes "at_most_once st"
  shows "at_most_once (step p e st)"
proof (cases "pc st = Returned")
  case True
  with assms show ?thesis
    by (cases e) (simp_all add: at_most_once_def cleanup_def)
next
  case False
  with assms have none: "completions (actions st) = []"
    by (simp add: at_most_once_def)
  show ?thesis
  proof (cases e)
    case (FetchResolved r)
    with none assms show ?thesis by (simp add: after_fetch_once)
  next
    case (FetchRejected x)
    with none assms show ?thesis by (simp add: finally_block_once)
  next
    case (ReadValue v)
    with none assms show ?thesis by (simp add: loop_head_once loop_body_emit)
  next
    case ReadDone
    with none assms show ?thesis by (simp add: after_loop_once)
  next
    case (ReadRejected x)
    with none assms show ?thesis by (simp add: finally_block_once)
  next
    case Cleanup
    with none assms show ?thesis by (simp add: at_most_once_def cleanup_def)
  qed
qed

lemma steps_at_most_once: "at_most_once st \<Longrightarrow> at_most_once (steps p evs st)"
  by (induction evs arbitrary: st) (simp_all add: steps_Nil steps_Cons step_at_most_once)

lemma effect_at_most_once: "at_most_once (effect p aq mounted)"
  by (simp add: at_most_once_def effect_def fetchStream_def mounted_def split: option.splits)

text \<open>
  C4. Once the cleanup of the effect has run (a new active question, or the component
  going away), whatever the pending fetch or read then settles to, the consumer asks for
  no further byte range and does not call the completion callback: all it may still do to
  its environment is abort and cancel the reader again. And a stream calls the completion
  callback at most once, whatever happens to it.
\<close>

theorem cancellation_suppresses_completion:
  "(\<exists>new. actions (steps p evs (step p Cleanup st)) = actions (step p Cleanup st) @ new \<and>
          Read \<notin> set new \<and> completions new = [] \<and> set new \<subseteq> {Abort, ReaderCancel}) \<and>
   length (completions (actions (steps p evs' (effect p aq mounted)))) \<le> 1"
proof
  have c: "isCancelled (step p Cleanup st)" by (simp add: cleanup_def)
  obtain new where a: "actions (steps p evs (step p Cleanup st)) = actions (step p Cleanup st) @ new"
    and s: "set new \<subseteq> {Abort, ReaderCancel}"
    using steps_cancelled [OF c] by blast
  have "Read \<notin> set new" using s by auto
  moreover have "completions new = []"
    using s by (induction new) auto
  ultimately show "\<exists>new. actions (steps p evs (step p Cleanup st)) =
        actions (step p Cleanup st) @ new \<and>
      Read \<notin> set new \<and> completions new = [] \<and> set new \<subseteq> {Abort, ReaderCancel}"
    using a s by blast
next
  show "length (completions (actions (steps p evs' (effect p aq mounted)))) \<le> 1"
    using steps_at_most_once [OF effect_at_most_once] by (simp add: at_most_once_def)
qed


theorem cancellation_suppresses_completion_witness:
  "(\<exists>new.
      actions (steps example_platform [ReadValue (concat clean_stream), ReadDone]
        (step example_platform Cleanup
          (steps example_platform [FetchResolved ok_response]
            (effect example_platform (Some (lit ''hi'')) mounted)))) =
      actions (step example_platform Cleanup
          (steps example_platform [FetchResolved ok_response]
            (effect example_platform (Some (lit ''hi'')) mounted))) @ new \<and>
      Read \<notin> set new \<and> completions new = [] \<and> set new \<subseteq> {Abort, ReaderCancel}) \<and>
   length (completions (actions (steps example_platform
      [FetchResolved ok_response, ReadValue (concat clean_stream), ReadDone, Cleanup]
      (effect example_platform (Some (lit ''hi'')) mounted)))) \<le> 1 \<and>
   completions (actions (steps example_platform
      [FetchResolved ok_response, Cleanup, ReadValue (concat clean_stream), ReadDone]
      (effect example_platform (Some (lit ''hi'')) mounted))) = [] \<and>
   completions (actions (steps example_platform
      [FetchResolved ok_response, ReadValue (concat clean_stream), ReadDone, Cleanup]
      (effect example_platform (Some (lit ''hi'')) mounted))) = [[0x61, 0x62, 0xE9]]"
proof -
  have a: "completions (actions (steps example_platform
      [FetchResolved ok_response, Cleanup, ReadValue (concat clean_stream), ReadDone]
      (effect example_platform (Some (lit ''hi'')) mounted))) = []"
    by code_simp
  have b: "completions (actions (steps example_platform
      [FetchResolved ok_response, ReadValue (concat clean_stream), ReadDone, Cleanup]
      (effect example_platform (Some (lit ''hi'')) mounted))) = [[0x61, 0x62, 0xE9]]"
    by code_simp
  show ?thesis
    using cancellation_suppresses_completion [of example_platform
        "[ReadValue (concat clean_stream), ReadDone]"
        "steps example_platform [FetchResolved ok_response]
            (effect example_platform (Some (lit ''hi'')) mounted)"
        "[FetchResolved ok_response, ReadValue (concat clean_stream), ReadDone, Cleanup]"
        "Some (lit ''hi'')"] a b
    by simp
qed

section \<open>End of the stream\<close>

text \<open>
  C5. When the read reports the end of a stream that is not cancelled, the consumer hands
  what is left in the buffer to the line handler once (a blank rest changes nothing),
  stops streaming, and calls the completion callback with the running answer as it is
  after that line.
\<close>

theorem end_of_stream_flush:
  assumes "pc st = AwaitRead" and "\<not> isCancelled st"
  shows "step p ReadDone st =
     (handleLine p (buffer st) st)
       \<lparr>isStreaming := False,
        actions := actions st @ [StreamComplete (latestAnswer (handleLine p (buffer st) st))],
        pc := Returned\<rparr>"
  using assms by (simp add: after_loop_flush finally_block_def)

theorem end_of_stream_flush_witness:
  "pc (steps example_platform [FetchResolved ok_response, ReadValue unterminated]
         (effect example_platform (Some (lit ''hi'')) mounted)) = AwaitRead \<and>
   \<not> isCancelled (steps example_platform [FetchResolved ok_response, ReadValue unterminated]
         (effect example_platform (Some (lit ''hi'')) mounted)) \<and>
   buffer (steps example_platform [FetchResolved ok_response, ReadValue unterminated]
         (effect example_platform (Some (lit ''hi'')) mounted)) = butlast first_line \<and>
   latestAnswer (steps example_platform [FetchResolved ok_response, ReadValue unterminated]
         (effect example_platform (Some (lit ''hi'')) mounted)) = lit ''ab'' \<and>
   completions (actions (step example_platform ReadDone
      (steps example_platform [FetchResolved ok_response, ReadValue unterminated]
         (effect example_platform (Some (lit ''hi'')) mounted)))) = [lit ''abab'']"
proof -
  define S where "S = steps example_platform [FetchResolved ok_response, ReadValue unterminated]
         (effect example_platform (Some (lit ''hi'')) mounted)"
  have h1: "pc S = AwaitRead" unfolding S_def by code_simp
  have h2: "\<not> isCancelled S" unfolding S_def by code_simp
  have h3: "buffer S = butlast first_line" unfolding S_def by code_simp
  have h4: "latestAnswer S = lit ''ab''" unfolding S_def by code_simp
  have h5: "latestAnswer (handleLine example_platform (buffer S) S) = lit ''abab''"
    unfolding S_def by code_simp
  have h6: "completions (actions S) = []" unfolding S_def by code_simp
  have "completions (actions (step example_platform ReadDone S)) = [lit ''abab'']"
    using end_of_stream_flush [OF h1 h2, of example_platform] h5 h6 by simp
  with h1 h2 h3 h4 show ?thesis unfolding S_def by simp
qed

section \<open>Status and error labels\<close>

lemma handleLine_status_prefix:
  "take (length (statusMessages st)) (statusMessages (handleLine p l st)) = statusMessages st"
  by (subst handleLine_emit) (simp add: emit_def)

text \<open>
  C6, as the code has it. A decoded chunk of kind \<open>status\<close> or \<open>error\<close> appends one entry
  to the label list when its label text is not empty: the payload when it is a string, its
  JSON serialisation otherwise, after a cross mark for an error. When the text is empty
  (an empty payload string, or no payload) nothing is appended. In both cases, and for
  every line whatever it holds, the entries already in the list stay as they are.
\<close>

theorem status_appends_nonempty_label:
  assumes "eventType data = Inr (Some (JStr k))"
    and "k = lit ''status'' \<or> k = lit ''error''"
  shows "(\<exists>pl. get_prop data (lit ''payload'') = Inr pl \<and>
            applyRecord p data st =
              Inr (st\<lparr>statusMessages := statusMessages st @
                    (if status_text p pl = [] then []
                     else [(if k = lit ''error'' then cross_mark else []) @ status_text p pl])\<rparr>)) \<and>
         take (length (statusMessages st)) (statusMessages (handleLine p l st)) = statusMessages st"
proof -
  obtain pl where pl: "get_prop data (lit ''payload'') = Inr pl"
    using eventType_payload [OF assms(1)] by blast
  have "applyRecord p data st =
      Inr (st\<lparr>statusMessages := statusMessages st @
            (if status_text p pl = [] then []
             else [(if k = lit ''error'' then cross_mark else []) @ status_text p pl])\<rparr>)"
    using assms pl by (auto simp: applyRecord_def pushStatus_def Let_def)
  with pl show ?thesis
    by (simp add: handleLine_status_prefix)
qed

theorem status_appends_nonempty_label_witness:
  \<open>eventType (record_of (lit ''error'') JNull) = Inr (Some (JStr (lit ''error''))) \<and>
   (lit ''error'' = lit ''status'' \<or> lit ''error'' = lit ''error'') \<and>
   get_prop (record_of (lit ''error'') JNull) (lit ''payload'') = Inr (Some JNull) \<and>
   applyRecord example_platform (record_of (lit ''error'') JNull) mounted =
     Inr (mounted\<lparr>statusMessages := [cross_mark @ lit ''null'']\<rparr>) \<and>
   statusMessages (handleLine example_platform (lit ''{"event":"status","payload":"ok"}'')
     (mounted\<lparr>statusMessages := [lit ''first'']\<rparr>)) = [lit ''first'', lit ''ok'']\<close>
proof -
  have h1: "eventType (record_of (lit ''error'') JNull) = Inr (Some (JStr (lit ''error'')))"
    by code_simp
  have h2: "lit ''error'' = lit ''status'' \<or> lit ''error'' = lit ''error''" by simp
  have g: "get_prop (record_of (lit ''error'') JNull) (lit ''payload'') = Inr (Some JNull)"
    by code_simp
  have t: "status_text example_platform (Some JNull) = lit ''null''" by code_simp
  have n: "lit ''null'' \<noteq> []" by (simp add: lit_def)
  have e: \<open>statusMessages (handleLine example_platform (lit ''{"event":"status","payload":"ok"}'')
     (mounted\<lparr>statusMessages := [lit ''first'']\<rparr>)) = [lit ''first'', lit ''ok'']\<close>
    by code_simp
  show ?thesis
    using status_appends_nonempty_label [OF h1 h2, of example_platform mounted "[]"] h1 g t n e
    by (auto simp: mounted_def)
qed

text \<open>
  C6 as it is stated fails: the record of the line \<open>{"event":"status","payload":""}\<close> is a
  chunk of kind \<open>status\<close>, and the line leaves the label list without a new entry.
\<close>

theorem status_empty_label_counterexample:
  \<open>decodeLine example_platform (lit ''{"event":"status","payload":""}'') =
     Some (record_of (lit ''status'') (JStr [])) \<and>
   encodes (record_of (lit ''status'') (JStr [])) (StatusChunk []) \<and>
   statusMessages (handleLine example_platform (lit ''{"event":"status","payload":""}'') mounted) =
     statusMessages mounted \<and>
   length (statusMessages
     (handleLine example_platform (lit ''{"event":"status","payload":""}'') mounted)) \<noteq>
     Suc (length (statusMessages mounted))\<close>
  by code_simp

section \<open>Unknown kinds and unexpected payloads\<close>

lemma eventType_fields:
  assumes "get_prop data (lit ''event'') = Inr ev" and "get_prop data (lit ''type'') = Inr ty"
  shows "eventType data = Inr (if truthy ev then ev else ty)"
  using assms by (simp add: eventType_def)

text \<open>
  C7, as the code has it. The consumer reads the kind of a decoded record from its
  \<open>event\<close> property, and from its \<open>type\<close> property when \<open>event\<close> is absent or falsy
  (\<open>data.event || data.type\<close>). A record whose kind, read this way, is none of \<open>text\<close>,
  \<open>status\<close>, \<open>error\<close> (\<open>source\<close>, any other string, a value that is not a string, or
  no kind at all) is ignored: it is applied without an exception and the consumer, its
  answer and its label list included, is left as it was.
\<close>

theorem unknown_kind_ignored:
  assumes "get_prop data (lit ''event'') = Inr ev"
    and "get_prop data (lit ''type'') = Inr ty"
    and "kind = (if truthy ev then ev else ty)"
    and "kind \<noteq> Some (JStr (lit ''text''))"
    and "kind \<noteq> Some (JStr (lit ''status''))"
    and "kind \<noteq> Some (JStr (lit ''error''))"
  shows "applyRecord p data st = Inr st \<and>
         (decodeLine p l = Some data \<longrightarrow> handleLine p l st = st)"
proof -
  have "eventType data = Inr kind"
    using eventType_fields [OF assms(1,2)] assms(3) by simp
  then have a: "applyRecord p data st = Inr st"
    using assms(4-6) by (simp add: applyRecord_def)
  then show ?thesis
    by (auto simp: handleLine_decoded)
qed

theorem unknown_kind_ignored_witness:
  \<open>get_prop (record_of (lit ''source'') (JObj [(lit ''title'', JStr (lit ''t''))])) (lit ''event'') =
     Inr (Some (JStr (lit ''source''))) \<and>
   get_prop (record_of (lit ''source'') (JObj [(lit ''title'', JStr (lit ''t''))])) (lit ''type'') =
     Inr None \<and>
   Some (JStr (lit ''source'')) =
     (if truthy (Some (JStr (lit ''source''))) then Some (JStr (lit ''source'')) else None) \<and>
   Some (JStr (lit ''source'')) \<noteq> Some (JStr (lit ''text'')) \<and>
   Some (JStr (lit ''source'')) \<noteq> Some (JStr (lit ''status'')) \<and>
   Some (JStr (lit ''source'')) \<noteq> Some (JStr (lit ''error'')) \<and>
   decodeLine example_platform (lit ''{"event":"source","payload":{"title":"t"}}'') =
     Some (record_of (lit ''source'') (JObj [(lit ''title'', JStr (lit ''t''))])) \<and>
   handleLine example_platform (lit ''{"event":"source","payload":{"title":"t"}}'')
     (mounted\<lparr>answer := lit ''ab'', statusMessages := [lit ''ok'']\<rparr>) =
     mounted\<lparr>answer := lit ''ab'', statusMessages := [lit ''ok'']\<rparr>\<close>
proof -
  have h1: "get_prop (record_of (lit ''source'') (JObj [(lit ''title'', JStr (lit ''t''))]))
      (lit ''event'') = Inr (Some (JStr (lit ''source'')))"
    by code_simp
  have h2: "get_prop (record_of (lit ''source'') (JObj [(lit ''title'', JStr (lit ''t''))]))
      (lit ''type'') = Inr None"
    by code_simp
  have h3: "Some (JStr (lit ''source'')) =
     (if truthy (Some (JStr (lit ''source''))) then Some (JStr (lit ''source'')) else None)"
    by simp
  have h4: "Some (JStr (lit ''source'')) \<noteq> Some (JStr (lit ''text''))"
    and h5: "Some (JStr (lit ''source'')) \<noteq> Some (JStr (lit ''status''))"
    and h6: "Some (JStr (lit ''source'')) \<noteq> Some (JStr (lit ''error''))"
    by simp_all
  have d: \<open>decodeLine example_platform (lit ''{"event":"source","payload":{"title":"t"}}'') =
     Some (record_of (lit ''source'') (JObj [(lit ''title'', JStr (lit ''t''))]))\<close>
    by code_simp
  show ?thesis
    using unknown_kind_ignored [OF h1 h2 h3 h4 h5 h6, of example_platform
        "mounted\<lparr>answer := lit ''ab'', statusMessages := [lit ''ok'']\<rparr>"
        \<open>lit ''{"event":"source","payload":{"title":"t"}}''\<close>] h1 h2 h3 d
    by simp
qed

text \<open>
  C7 as it is stated fails, the kind of a record being its \<open>event\<close>: the record of the
  line \<open>{"event":"","type":"text","payload":"ab"}\<close> has the event \<open>""\<close>, which is
  none of \<open>text\<close>, \<open>status\<close>, \<open>error\<close>, and the consumer, falling back on \<open>type\<close>,
  appends its payload to the answer.
\<close>

theorem unknown_kind_counterexample:
  \<open>decodeLine example_platform (lit ''{"event":"","type":"text","payload":"ab"}'') =
     Some (JObj [(lit ''event'', JStr []), (lit ''type'', JStr (lit ''text'')),
                 (lit ''payload'', JStr (lit ''ab''))]) \<and>
   get_prop (JObj [(lit ''event'', JStr []), (lit ''type'', JStr (lit ''text'')),
                   (lit ''payload'', JStr (lit ''ab''))]) (lit ''event'') = Inr (Some (JStr [])) \<and>
   JStr [] \<noteq> JStr (lit ''text'') \<and> JStr [] \<noteq> JStr (lit ''status'') \<and>
   JStr [] \<noteq> JStr (lit ''error'') \<and>
   answer (handleLine example_platform (lit ''{"event":"","type":"text","payload":"ab"}'') mounted) =
     lit ''ab'' \<and>
   latestAnswer
     (handleLine example_platform (lit ''{"event":"","type":"text","payload":"ab"}'') mounted) =
     lit ''ab'' \<and>
   answer (handleLine example_platform (lit ''{"event":"","type":"text","payload":"ab"}'') mounted) \<noteq>
     answer mounted\<close>
  by code_simp

text \<open>
  C10. A decoded record of kind \<open>text\<close>, \<open>status\<close> or \<open>error\<close> whose payload is not a
  string is applied without an exception. A \<open>text\<close> record adds the empty string to the
  answer, so the consumer is unchanged. A \<open>status\<close> or \<open>error\<close> record with a payload
  appends the JSON serialisation of the payload to the label list (after the cross mark
  for an error) unless that text is empty; without a payload it appends nothing.
\<close>

theorem unexpected_payload_total:
  assumes "eventType data = Inr (Some (JStr k))"
    and "get_prop data (lit ''payload'') = Inr pl"
    and "\<forall>s. pl \<noteq> Some (JStr s)"
  shows "(k = lit ''text'' \<longrightarrow> applyRecord p data st = Inr st) \<and>
         (k = lit ''status'' \<longrightarrow>
            applyRecord p data st =
              Inr (case pl of
                     None \<Rightarrow> st
                   | Some v \<Rightarrow>
                       if JSON_stringify p v = [] then st
                       else st\<lparr>statusMessages := statusMessages st @ [JSON_stringify p v]\<rparr>)) \<and>
         (k = lit ''error'' \<longrightarrow>
            applyRecord p data st =
              Inr (case pl of
                     None \<Rightarrow> st
                   | Some v \<Rightarrow>
                       if JSON_stringify p v = [] then st
                       else st\<lparr>statusMessages :=
                                statusMessages st @ [cross_mark @ JSON_stringify p v]\<rparr>)) \<and>
         (\<exists>st'. applyRecord p data st = Inr st')"
proof (intro conjI impI)
  assume "k = lit ''text''"
  with assms show "applyRecord p data st = Inr st"
    by (cases pl) (auto simp: applyRecord_def split: json.splits)
next
  assume "k = lit ''status''"
  with assms show "applyRecord p data st =
      Inr (case pl of
             None \<Rightarrow> st
           | Some v \<Rightarrow>
               if JSON_stringify p v = [] then st
               else st\<lparr>statusMessages := statusMessages st @ [JSON_stringify p v]\<rparr>)"
    by (cases pl)
      (auto simp: applyRecord_def pushStatus_def status_text_def Let_def split: json.splits)
next
  assume "k = lit ''error''"
  with assms show "applyRecord p data st =
      Inr (case pl of
             None \<Rightarrow> st
           | Some v \<Rightarrow>
               if JSON_stringify p v = [] then st
               else st\<lparr>statusMessages := statusMessages st @ [cross_mark @ JSON_stringify p v]\<rparr>)"
    by (cases pl)
      (auto simp: applyRecord_def pushStatus_def status_text_def Let_def split: json.splits)
next
  show "\<exists>st'. applyRecord p data st = Inr st'"
    using assms(1,2) by (simp add: applyRecord_def Let_def)
qed

theorem unexpected_payload_total_witness:
  \<open>eventType (record_of (lit ''text'') JNull) = Inr (Some (JStr (lit ''text''))) \<and>
   get_prop (record_of (lit ''text'') JNull) (lit ''payload'') = Inr (Some JNull) \<and>
   (\<forall>s. Some JNull \<noteq> Some (JStr s)) \<and>
   applyRecord example_platform (record_of (lit ''text'') JNull) mounted = Inr mounted \<and>
   decodeLine example_platform (lit ''{"event":"text","payload":null}'') =
     Some (record_of (lit ''text'') JNull) \<and>
   eventType (record_of (lit ''error'') JNull) = Inr (Some (JStr (lit ''error''))) \<and>
   applyRecord example_platform (record_of (lit ''error'') JNull) mounted =
     Inr (mounted\<lparr>statusMessages := [cross_mark @ lit ''null'']\<rparr>)\<close>
proof -
  have t1: "eventType (record_of (lit ''text'') JNull) = Inr (Some (JStr (lit ''text'')))"
    by code_simp
  have t2: "get_prop (record_of (lit ''text'') JNull) (lit ''payload'') = Inr (Some JNull)"
    by code_simp
  have e1: "eventType (record_of (lit ''error'') JNull) = Inr (Some (JStr (lit ''error'')))"
    by code_simp
  have e2: "get_prop (record_of (lit ''error'') JNull) (lit ''payload'') = Inr (Some JNull)"
    by code_simp
  have n: "\<forall>s. Some JNull \<noteq> Some (JStr s)" by simp
  have d: \<open>decodeLine example_platform (lit ''{"event":"text","payload":null}'') =
     Some (record_of (lit ''text'') JNull)\<close>
    by code_simp
  have s: "JSON_stringify example_platform JNull = lit ''null''" by code_simp
  have nn: "lit ''null'' \<noteq> []" by (simp add: lit_def)
  show ?thesis
    using unexpected_payload_total [OF t1 t2 n, of example_platform mounted]
      unexpected_payload_total [OF e1 e2 n, of example_platform mounted] t1 t2 e1 d s nn
    by (simp add: mounted_def)
qed

section \<open>Requests to the Ask endpoint\<close>

lemma requests_simps [simp]:
  "requests [] = []"
  "requests (Fetch rq # as) = rq # requests as"
  "requests (Read # as) = requests as"
  "requests (StreamStart # as) = requests as"
  "requests (StreamComplete a # as) = requests as"
  "requests (StreamError m # as) = requests as"
  "requests (Abort # as) = requests as"
  "requests (ReaderCancel # as) = requests as"
  by (simp_all add: requests_def)

lemma requests_append [simp]: "requests (a @ b) = requests a @ requests b"
  by (simp add: requests_def map_filter_def)

lemma finally_block_requests [simp]:
  "requests (actions (finally_block st)) = requests (actions st)"
  by (simp add: finally_block_def)

lemma after_loop_requests [simp]:
  "requests (actions (after_loop p st)) = requests (actions st)"
  by (simp add: after_loop_def)

lemma loop_head_requests [simp]:
  "requests (actions (loop_head p st)) = requests (actions st)"
  by (simp add: loop_head_def)

lemma catch_block_requests [simp]:
  "requests (actions (catch_block p x st)) = requests (actions st)"
  by (simp add: catch_block_def Let_def)

lemma step_requests: "requests (actions (step p e st)) = requests (actions st)"
  by (cases e) (simp_all add: after_fetch_def loop_body_emit cleanup_def)

lemma steps_requests: "requests (actions (steps p evs st)) = requests (actions st)"
  by (induction evs arbitrary: st) (simp_all add: steps_Nil steps_Cons step_requests)

lemma effect_requests:
  "requests (actions (effect p aq mounted)) =
     (case aq of None \<Rightarrow> [] | Some q \<Rightarrow> if q = [] then [] else [ask_request p q])"
  by (simp add: effect_def fetchStream_def mounted_def split: option.splits)

lemma ask_payload_ok: "ask_body_ok (ask_payload q)"
  by (simp add: ask_payload_def lit_def)

lemma query_payload_ok: "ask_body_ok (query_payload req)"
  by (cases "search_mode req") (simp_all add: query_payload_def lit_def)

text \<open>
  C8. Every request the stream consumer sends, whatever happens to the stream, and the
  request of \<open>ApiService.askQuestion\<close> for a \<open>QueryRequest\<close>, is a POST whose body is the
  JSON serialisation of an object with a string \<open>question\<close>, with no key besides
  \<open>question\<close>, \<open>user_id\<close> and \<open>search_mode\<close>, and whose \<open>search_mode\<close>, when it has one,
  is \<open>"general"\<close> or \<open>"law"\<close>.
\<close>

theorem ask_requests_well_formed:
  "(\<forall>rq \<in> set (requests (actions (steps p evs (effect p aq mounted)))).
      http_method rq = POST \<and>
      (\<exists>payload. body rq = JSON_stringify p payload \<and> ask_body_ok payload)) \<and>
   http_method (askQuestion p req) = POST \<and>
   body (askQuestion p req) = JSON_stringify p (query_payload req) \<and>
   ask_body_ok (query_payload req)"
proof (intro conjI ballI)
  fix rq
  assume "rq \<in> set (requests (actions (steps p evs (effect p aq mounted))))"
  then obtain q where rq: "rq = ask_request p q"
    by (auto simp: steps_requests effect_requests split: option.splits if_splits)
  show "http_method rq = POST" by (simp add: rq ask_request_def)
  have "body rq = JSON_stringify p (ask_payload q)" by (simp add: rq ask_request_def)
  then show "\<exists>payload. body rq = JSON_stringify p payload \<and> ask_body_ok payload"
    using ask_payload_ok by blast
next
  show "http_method (askQuestion p req) = POST" by (simp add: askQuestion_def)
  show "body (askQuestion p req) = JSON_stringify p (query_payload req)"
    by (simp add: askQuestion_def)
  show "ask_body_ok (query_payload req)" by (rule query_payload_ok)
qed

theorem ask_requests_well_formed_witness:
  \<open>requests (actions (run example_platform (lit ''hi'') ok_response clean_stream)) =
     [ask_request example_platform (lit ''hi'')] \<and>
   http_method (ask_request example_platform (lit ''hi'')) = POST \<and>
   body (ask_request example_platform (lit ''hi'')) =
     lit ''{"user_id":"linkcampus","question":"hi"}'' \<and>
   (\<exists>payload. body (ask_request example_platform (lit ''hi'')) =
      JSON_stringify example_platform payload \<and> ask_body_ok payload) \<and>
   http_method (askQuestion example_platform \<lparr>question = lit ''hi'', search_mode = Law\<rparr>) = POST \<and>
   ask_body_ok (query_payload \<lparr>question = lit ''hi'', search_mode = Law\<rparr>)\<close>
proof -
  have r: "requests (actions (run example_platform (lit ''hi'') ok_response clean_stream)) =
     [ask_request example_platform (lit ''hi'')]"
    by (simp add: run_def steps_requests effect_requests lit_def)
  have b: \<open>body (ask_request example_platform (lit ''hi'')) =
     lit ''{"user_id":"linkcampus","question":"hi"}''\<close>
    by code_simp
  show ?thesis
    using ask_requests_well_formed [of example_platform
        "FetchResolved ok_response # map ReadValue clean_stream @ [ReadDone]" "Some (lit ''hi'')"
        "\<lparr>question = lit ''hi'', search_mode = Law\<rparr>"] r b
    by (simp add: run_def)
qed

section \<open>Completion in the application\<close>

text \<open>
  C9. The completion handler of the application appends one assistant message holding the
  answer when the answer has a character that is not white space, leaves the messages as
  they are when the answer is empty or all white space, and clears the active question in
  both cases.
\<close>

theorem stream_complete_appends_answer:
  "handleStreamComplete ans a =
     a\<lparr>messages := messages a @
          (if \<exists>c \<in> set ans. \<not> js_whitespace c
           then [\<lparr>role = lit ''assistant'', content = ans\<rparr>] else []),
       activeQuestion := None\<rparr>"
  using trim_empty_iff [of ans]
  by (auto simp: handleStreamComplete_def Let_def)

theorem stream_complete_appends_answer_witness:
  "handleStreamComplete (lit ''ab'') \<lparr>messages = [], activeQuestion = Some (lit ''hi'')\<rparr> =
     \<lparr>messages = [\<lparr>role = lit ''assistant'', content = lit ''ab''\<rparr>], activeQuestion = None\<rparr> \<and>
   handleStreamComplete [0x20, 0x0A] \<lparr>messages = [], activeQuestion = Some (lit ''hi'')\<rparr> =
     \<lparr>messages = [], activeQuestion = None\<rparr>"
proof -
  have a: "\<exists>c \<in> set (lit ''ab''). \<not> js_whitespace c"
    by (simp add: lit_def js_whitespace_def)
  have b: "\<not> (\<exists>c \<in> set [0x20, 0x0A]. \<not> js_whitespace c)"
    by (simp add: js_whitespace_def)
  show ?thesis
    using stream_complete_appends_answer [of "lit ''ab''"
        "\<lparr>messages = [], activeQuestion = Some (lit ''hi'')\<rparr>"]
      stream_complete_appends_answer [of "[0x20, 0x0A]"
        "\<lparr>messages = [], activeQuestion = Some (lit ''hi'')\<rparr>"] a b
    by simp
qed


end
